theory Spec2Isabelle
  imports
    Main
    "HOL-Library.Word"
    "HOL-Library.Multiset"
    "HOL-Library.List_Lexorder"
begin

section \<open>ScrollGuard: the data of ScrollGuard.cpp\<close>

text \<open>
  The Win32 types the program uses. A \<open>DWORD\<close> is a 32-bit unsigned value, an
  \<open>int\<close> the system returns is a 32-bit value read as two's complement (\<open>sint\<close>), a
  \<open>WPARAM\<close> and a \<open>size_t\<close> are 64-bit unsigned values, \<open>wchar_t\<close> is a 16-bit
  unsigned value and a \<open>std::wstring\<close> is a sequence of them. Handles (\<open>HWND\<close>,
  \<open>HHOOK\<close>, \<open>HANDLE\<close>) are opaque; they are natural numbers here and \<open>0\<close> is the
  null handle.
\<close>

type_synonym DWORD = "32 word"
type_synonym c_int = "32 word"
type_synonym WPARAM = "64 word"
type_synonym size_t = "64 word"
type_synonym wchar_t = "16 word"
type_synonym wstring = "wchar_t list"
type_synonym HWND = nat
type_synonym HHOOK = nat
type_synonym HANDLE = nat

record POINT =
  x :: int
  y :: int

text \<open>\<open>MSLLHOOKSTRUCT\<close>, the structure \<open>lParam\<close> points to in a low-level mouse hook.\<close>

record MSLLHOOKSTRUCT =
  pt :: POINT
  mouseData :: DWORD
  flags :: DWORD
  time :: DWORD
  dwExtraInfo :: nat

text \<open>\<open>struct AppEntry\<close> (lines 25-30).\<close>

record AppEntry =
  hwnd :: HWND
  pid :: DWORD
  processName :: wstring
  windowTitle :: wstring

text \<open>
  The globals of the hook (lines 33-35).
\<close>

record globals =
  g_mouseHook :: HHOOK
  g_targetPid :: DWORD
  g_running :: bool

text \<open>
  The operating system as the program queries it: one snapshot of the answers of the
  Win32 calls the program makes. \<open>GetWindowThreadProcessId env h\<close> is the value of the
  variable \<open>pid\<close> after \<open>DWORD pid = 0; GetWindowThreadProcessId(h, &pid);\<close>, so it is
  \<open>0\<close> when the call stores nothing. \<open>GetWindowTextW env h buf n\<close> is the returned
  count together with the buffer after the call. \<open>OpenProcess\<close>,
  \<open>GetModuleBaseNameW\<close> and \<open>QueryFullProcessImageNameW\<close> answer \<open>None\<close> when the
  call fails, and the string stored in \<open>buf\<close> otherwise.
\<close>

record os =
  EnumWindows :: "HWND list"
  IsWindowVisible :: "HWND \<Rightarrow> bool"
  GetWindowThreadProcessId :: "HWND \<Rightarrow> DWORD"
  GetWindowTextLengthW :: "HWND \<Rightarrow> c_int"
  GetWindowTextW :: "HWND \<Rightarrow> wstring \<Rightarrow> c_int \<Rightarrow> c_int \<times> wstring"
  OpenProcess :: "DWORD \<Rightarrow> HANDLE option"
  GetModuleBaseNameW :: "HANDLE \<Rightarrow> wstring option"
  QueryFullProcessImageNameW :: "HANDLE \<Rightarrow> wstring option"
  GetForegroundWindow :: HWND
  WindowFromPoint :: "POINT \<Rightarrow> HWND"
  GetAncestor :: "HWND \<Rightarrow> HWND"

text \<open>
  Constants of the Windows headers (\<open>winuser.h\<close>), which are not part of the
  repository: \<open>HC_ACTION\<close> is 0, \<open>WM_MOUSEWHEEL\<close> is 0x020A and \<open>WM_MOUSEHWHEEL\<close> is
  0x020E.
\<close>

definition HC_ACTION :: int where
  "HC_ACTION = 0"

definition WM_MOUSEWHEEL :: WPARAM where
  "WM_MOUSEWHEEL = 0x020A"

definition WM_MOUSEHWHEEL :: WPARAM where
  "WM_MOUSEHWHEEL = 0x020E"

section \<open>The event filter\<close>

text \<open>\<open>PidFromPoint\<close> (lines 112-120).\<close>

definition PidFromPoint :: "os \<Rightarrow> POINT \<Rightarrow> DWORD" where
  "PidFromPoint env p =
     (let h = WindowFromPoint env p in
      if h = 0 then 0
      else
        let root0 = GetAncestor env h;
            root = (if root0 = 0 then h else root0)
        in GetWindowThreadProcessId env root)"

text \<open>
  The foreground query of the hook (lines 126-128):
  \<open>HWND fg = GetForegroundWindow(); DWORD fgPid = 0;
  if (fg) GetWindowThreadProcessId(fg, &fgPid);\<close>
\<close>

definition fgPid :: "os \<Rightarrow> DWORD" where
  "fgPid env =
     (let fg = GetForegroundWindow env in
      if fg \<noteq> 0 then GetWindowThreadProcessId env fg else 0)"

text \<open>
  What the hook procedure does with an event: it returns 1, which blocks the event, or it
  returns the result of \<open>CallNextHookEx(g_mouseHook, nCode, wParam, lParam)\<close>, which
  passes the event, with the arguments given, to the next hook of the chain.
\<close>

datatype hook_result =
  Return1
  | CallNextHookEx HHOOK int WPARAM MSLLHOOKSTRUCT

text \<open>\<open>LowLevelMouseProc\<close> (lines 123-141).\<close>

definition LowLevelMouseProc :: "globals \<Rightarrow> os \<Rightarrow> int \<Rightarrow> WPARAM \<Rightarrow> MSLLHOOKSTRUCT \<Rightarrow> hook_result" where
  "LowLevelMouseProc g env nCode wParam lParam =
     (let next = CallNextHookEx (g_mouseHook g) nCode wParam lParam in
      if nCode = HC_ACTION \<and> g_targetPid g \<noteq> 0 then
        if wParam = WM_MOUSEWHEEL \<or> wParam = WM_MOUSEHWHEEL then
          if fgPid env = g_targetPid g then
            let underPid = PidFromPoint env (pt lParam) in
            if underPid \<noteq> g_targetPid g then Return1 else next
          else next
        else next
      else next)"

text \<open>The verdict on an event: swallowed, or forwarded to the next observer.\<close>

datatype verdict = Swallow | Forward

fun verdict_of :: "hook_result \<Rightarrow> verdict" where
  "verdict_of Return1 = Swallow"
| "verdict_of (CallNextHookEx h n w l) = Forward"

section \<open>The candidate enumerator\<close>

text \<open>
  Wide-string literals: \<open>L ''abc''\<close> is \<open>L"abc"\<close>.
\<close>

definition L :: "string \<Rightarrow> wstring" where
  "L s = map of_char s"

text \<open>
  \<open>std::wstring::find_last_of\<close> for one character: the last position of the character,
  \<open>None\<close> for \<open>npos\<close>.
\<close>

definition find_last_of :: "wstring \<Rightarrow> wchar_t \<Rightarrow> nat option" where
  "find_last_of s c = List.find (\<lambda>i. s ! i = c) (rev [0..<length s])"

text \<open>\<open>GetProcessNameFromPid\<close> (lines 38-59).\<close>

definition GetProcessNameFromPid :: "os \<Rightarrow> DWORD \<Rightarrow> wstring" where
  "GetProcessNameFromPid env p =
     (case OpenProcess env p of
        None \<Rightarrow> L ''(unknown)''
      | Some hProc \<Rightarrow>
          (case GetModuleBaseNameW env hProc of
             Some buf \<Rightarrow> buf
           | None \<Rightarrow>
               (case QueryFullProcessImageNameW env hProc of
                  None \<Rightarrow> L ''(unknown)''
                | Some full \<Rightarrow>
                    (let p1 = find_last_of full 0x5C;
                         p2 = find_last_of full 0x2F;
                         pos = (case p1 of
                                  None \<Rightarrow> p2
                                | Some i1 \<Rightarrow>
                                    (case p2 of
                                       None \<Rightarrow> p1
                                     | Some i2 \<Rightarrow> if i1 > i2 then p1 else p2))
                     in case pos of None \<Rightarrow> full | Some i \<Rightarrow> drop (i + 1) full))))"

text \<open>\<open>std::wstring::resize\<close>: cut, or fill with \<open>L'\0'\<close>.\<close>

definition resize :: "wstring \<Rightarrow> nat \<Rightarrow> wstring" where
  "resize s n = take n s @ replicate (n - length s) 0"

text \<open>
  \<open>EnumWindowsProc\<close> (lines 62-95), on the vector \<open>lParam\<close> points to. It always returns
  \<open>TRUE\<close>; the value here is the vector after the call.
\<close>

definition EnumWindowsProc :: "os \<Rightarrow> HWND \<Rightarrow> AppEntry list \<Rightarrow> AppEntry list" where
  "EnumWindowsProc env h out =
     (if \<not> IsWindowVisible env h then out
      else
        let p = GetWindowThreadProcessId env h in
        if p = 0 then out
        else if List.find (\<lambda>e. pid e = p) out \<noteq> None then out
        else
          let len = GetWindowTextLengthW env h;
              title =
                (if 0 < sint len then
                   let buf = resize [] (nat (sint len) + 1);
                       (written, buf') = GetWindowTextW env h buf (word_of_nat (length buf));
                       written' = (if sint written < 0 then 0 else written);
                       t = resize buf' (nat (sint written'))
                   in if t = [] then L ''[No Title]'' else t
                 else L ''[No Title]'')
          in out @ [\<lparr>hwnd = h, pid = p,
                      processName = GetProcessNameFromPid env p,
                      windowTitle = title\<rparr>])"

text \<open>
  \<open>_wcsicmp\<close> of the C runtime, which is not part of the repository. The program never
  sets a locale, and in the C locale the runtime lowers the letters A to Z only and
  compares the strings, as unsigned 16-bit values, up to the first difference or the
  terminating \<open>L'\0'\<close>:
  \<^verbatim>\<open>do { f = towlower(*a++); l = towlower(*b++); } while (f && f == l); return f - l;\<close>
  At the end of a list the loop reads the terminator of \<open>c_str()\<close>.
\<close>

definition towlower :: "wchar_t \<Rightarrow> wchar_t" where
  "towlower c = (if 0x41 \<le> c \<and> c \<le> 0x5A then c + 0x20 else c)"

fun wcsicmp :: "wstring \<Rightarrow> wstring \<Rightarrow> int" where
  "wcsicmp [] [] = 0"
| "wcsicmp [] (d # b) = - uint (towlower d)"
| "wcsicmp (c # a) [] = uint (towlower c)"
| "wcsicmp (c # a) (d # b) =
     (let f = towlower c; l = towlower d
      in if f \<noteq> 0 \<and> f = l then wcsicmp a b else uint f - uint l)"

text \<open>The comparison \<open>EnumerateApps\<close> sorts with (lines 103-107).\<close>

definition app_less :: "AppEntry \<Rightarrow> AppEntry \<Rightarrow> bool" where
  "app_less a b =
     (let c = wcsicmp (processName a) (processName b)
      in if c \<noteq> 0 then c < 0
         else wcsicmp (windowTitle a) (windowTitle b) < 0)"

text \<open>
  \<open>EnumerateApps\<close> (lines 97-109). \<open>EnumWindows\<close> calls \<open>EnumWindowsProc\<close> on every
  top-level window in turn, since the callback never returns \<open>FALSE\<close>. \<open>std::sort\<close>
  belongs to the C++ library and is a parameter, \<open>srt\<close>.
\<close>

definition EnumerateApps ::
  "((AppEntry \<Rightarrow> AppEntry \<Rightarrow> bool) \<Rightarrow> AppEntry list \<Rightarrow> AppEntry list) \<Rightarrow> os \<Rightarrow> AppEntry list" where
  "EnumerateApps srt env =
     (let apps = foldl (\<lambda>out h. EnumWindowsProc env h out) [] (EnumWindows env)
      in srt app_less apps)"

text \<open>
  What the C++ standard asks of a comparison given to \<open>std::sort\<close>, a strict weak
  ordering, and what it promises of the result: the same elements, and no element
  before one that compares less than it. The order of equivalent elements is left open.
\<close>

definition strict_weak_order :: "('a \<Rightarrow> 'a \<Rightarrow> bool) \<Rightarrow> bool" where
  "strict_weak_order lt \<longleftrightarrow>
     (\<forall>a. \<not> lt a a) \<and>
     (\<forall>a b c. lt a b \<and> lt b c \<longrightarrow> lt a c) \<and>
     (\<forall>a b c. \<not> lt a b \<and> \<not> lt b a \<and> \<not> lt b c \<and> \<not> lt c b \<longrightarrow> \<not> lt a c \<and> \<not> lt c a)"

definition std_sort_spec ::
  "(('a \<Rightarrow> 'a \<Rightarrow> bool) \<Rightarrow> 'a list \<Rightarrow> 'a list) \<Rightarrow> bool" where
  "std_sort_spec srt \<longleftrightarrow>
     (\<forall>lt xs. strict_weak_order lt \<longrightarrow>
        mset (srt lt xs) = mset xs \<and> sorted_wrt (\<lambda>a b. \<not> lt b a) (srt lt xs))"

text \<open>One sort that meets it, to run \<open>EnumerateApps\<close> with: insertion sort.\<close>

fun insert_by :: "('a \<Rightarrow> 'a \<Rightarrow> bool) \<Rightarrow> 'a \<Rightarrow> 'a list \<Rightarrow> 'a list" where
  "insert_by lt a [] = [a]"
| "insert_by lt a (b # bs) = (if lt a b then a # b # bs else b # insert_by lt a bs)"

definition insertion_sort :: "('a \<Rightarrow> 'a \<Rightarrow> bool) \<Rightarrow> 'a list \<Rightarrow> 'a list" where
  "insertion_sort lt xs = foldr (insert_by lt) xs []"

text \<open>
  The key \<open>_wcsicmp\<close> compares by: the string up to its first \<open>L'\0'\<close>, in lower case.
  Keys are compared in dictionary order, character by character as unsigned values
  (the order \<open><\<close> of lists).
\<close>

definition lower :: "wstring \<Rightarrow> wstring" where
  "lower s = map towlower (takeWhile (\<lambda>c. c \<noteq> 0) s)"

section \<open>The program\<close>

text \<open>
  What one run of \<open>wmain\<close> reads besides the windows: the outcome of
  \<open>std::wcin >> choice\<close> (\<open>None\<close> when the extraction fails), the cursor position
  \<open>GetCursorPos\<close> stores, the handle \<open>SetWindowsHookExW\<close> returns (0 when it fails) and
  what the message loop meets at each test of
  \<open>g_running && GetMessageW(&msg, nullptr, 0, 0) > 0\<close>: \<open>g_running\<close> read as false
  (\<open>ConsoleCtrlHandler\<close>, lines 144-151, clears it from another thread on a console
  signal), or else the value \<open>GetMessageW\<close> returns. When the list is used up,
  \<open>GetMessageW\<close> never returns.
\<close>

datatype pump = RunningFalse | GetMessageW c_int

record console =
  wcin_choice :: "size_t option"
  GetCursorPos :: POINT
  SetWindowsHookExW :: HHOOK
  pumps :: "pump list"

text \<open>\<open>HoverSelectPid\<close> (lines 159-170); the line it waits for is ignored.\<close>

definition HoverSelectPid :: "os \<Rightarrow> console \<Rightarrow> DWORD" where
  "HoverSelectPid env io = PidFromPoint env (GetCursorPos io)"

text \<open>The message loop (lines 220-223): whether it is left.\<close>

fun message_loop :: "pump list \<Rightarrow> bool" where
  "message_loop [] = False"
| "message_loop (RunningFalse # ps) = True"
| "message_loop (GetMessageW r # ps) = (if 0 < sint r then message_loop ps else True)"

text \<open>
  The second half of \<open>wmain\<close> (lines 204-227), which every successful selection
  reaches: the hook is installed and the loop runs. The result is the globals as
  \<open>wmain\<close> leaves them and the exit code, \<open>None\<close> when \<open>wmain\<close> never returns.
\<close>

definition install_and_run :: "globals \<Rightarrow> console \<Rightarrow> globals \<times> int option" where
  "install_and_run g io =
     (let g = g\<lparr>g_mouseHook := SetWindowsHookExW io\<rparr> in
      if g_mouseHook g = 0 then (g, Some 3)
      else if message_loop (pumps io) then (g\<lparr>g_mouseHook := 0\<rparr>, Some 0)
      else (g, None))"

text \<open>\<open>wmain\<close> (lines 171-228).\<close>

definition wmain ::
  "((AppEntry \<Rightarrow> AppEntry \<Rightarrow> bool) \<Rightarrow> AppEntry list \<Rightarrow> AppEntry list) \<Rightarrow> os \<Rightarrow> console
     \<Rightarrow> globals \<times> int option" where
  "wmain srt env io =
     (let g = \<lparr>g_mouseHook = 0, g_targetPid = 0, g_running = True\<rparr>;
          apps = EnumerateApps srt env
      in
        if apps \<noteq> [] then
          (case wcin_choice io of
             None \<Rightarrow> (g, Some 2)
           | Some choice \<Rightarrow>
               if choice = 0 then
                 let g = g\<lparr>g_targetPid := HoverSelectPid env io\<rparr>
                 in if g_targetPid g = 0 then (g, Some 2) else install_and_run g io
               else if 1 \<le> choice \<and> unat choice \<le> length apps then
                 install_and_run (g\<lparr>g_targetPid := pid (apps ! (unat choice - 1))\<rparr>) io
               else (g, Some 2))
        else
          let g = g\<lparr>g_targetPid := HoverSelectPid env io\<rparr>
          in if g_targetPid g = 0 then (g, Some 2) else install_and_run g io)"

text \<open>
  When the selection fails, in the words of the specification: the menu input is no
  number or an index outside \<open>1..N\<close> other than 0, or hover-select (taken on input 0, or
  when there is nothing to list) resolves no process under the cursor.
\<close>

definition selection_fails :: "AppEntry list \<Rightarrow> os \<Rightarrow> console \<Rightarrow> bool" where
  "selection_fails apps env io \<longleftrightarrow>
     (if apps \<noteq> [] \<and> wcin_choice io \<noteq> Some 0
      then (case wcin_choice io of
              None \<Rightarrow> True
            | Some c \<Rightarrow> \<not> (1 \<le> unat c \<and> unat c \<le> length apps))
      else HoverSelectPid env io = 0)"

section \<open>A desktop to run the program on\<close>

text \<open>
  Six top-level windows, numbered in enumeration order: window 1 (title \<open>Main\<close>) and
  window 3 (title \<open>Settings\<close>) of process 300 (\<open>game.exe\<close>); window 2 of process 200
  (\<open>Chat.exe\<close>), whose title is two spaces; window 4 of process 400, which is untitled
  and whose process cannot be opened; window 5, which is hidden; and window 6, whose
  owner the system cannot tell. Window 1 is in the foreground. On the screen, window 1
  covers \<open>0 \<le> x < 1000\<close>, window 2 covers \<open>1000 \<le> x < 2000\<close>, window 3 covers
  \<open>2000 \<le> x < 3000\<close> and nothing lies elsewhere.
\<close>

definition desktop_pid :: "HWND \<Rightarrow> DWORD" where
  "desktop_pid h =
     (if h = 1 \<or> h = 3 then 300 else if h = 2 then 200 else if h = 4 then 400
      else if h = 5 then 500 else 0)"

definition desktop_text :: "HWND \<Rightarrow> wstring" where
  "desktop_text h =
     (if h = 1 then L ''Main'' else if h = 2 then L ''  ''
      else if h = 3 then L ''Settings'' else if h = 5 then L ''Hidden'' else [])"

definition desktop_at :: "POINT \<Rightarrow> HWND" where
  "desktop_at p =
     (if 0 \<le> x p \<and> x p < 1000 then 1 else if 1000 \<le> x p \<and> x p < 2000 then 2
      else if 2000 \<le> x p \<and> x p < 3000 then 3 else 0)"

definition desktop :: os where
  "desktop = \<lparr>
     EnumWindows = [1, 2, 3, 4, 5, 6],
     IsWindowVisible = (\<lambda>h. h \<noteq> 5),
     GetWindowThreadProcessId = desktop_pid,
     GetWindowTextLengthW = (\<lambda>h. word_of_nat (length (desktop_text h))),
     GetWindowTextW = (\<lambda>h buf n.
        if sint n \<le> 0 then (0, buf)
        else
          let t = take (nat (sint n) - 1) (desktop_text h)
          in (word_of_nat (length t), t @ 0 # drop (Suc (length t)) buf)),
     OpenProcess = (\<lambda>p. if p = 400 then None else Some (unat p)),
     GetModuleBaseNameW = (\<lambda>hp. if hp = 300 then Some (L ''game.exe'') else None),
     QueryFullProcessImageNameW = (\<lambda>hp.
        if hp = 200 then Some (L ''C:/Apps'' @ 0x5C # L ''Chat.exe'') else None),
     GetForegroundWindow = 1,
     WindowFromPoint = desktop_at,
     GetAncestor = (\<lambda>h. h) \<rparr>"

text \<open>
  The hook armed for process 300, a wheel event at a point of the screen, and a second
  desktop and hook that differ from the first in what the verdict does not read.
\<close>

definition armed :: globals where
  "armed = \<lparr>g_mouseHook = 7, g_targetPid = 300, g_running = True\<rparr>"

definition wheel_at :: "int \<Rightarrow> MSLLHOOKSTRUCT" where
  "wheel_at px = \<lparr>pt = \<lparr>x = px, y = 10\<rparr>, mouseData = 0x00780000, flags = 0,
     time = 1000, dwExtraInfo = 0\<rparr>"

definition desktop2 :: os where
  "desktop2 = desktop\<lparr>EnumWindows := [3, 2], GetForegroundWindow := 3\<rparr>"

definition armed2 :: globals where
  "armed2 = \<lparr>g_mouseHook = 9, g_targetPid = 300, g_running = False\<rparr>"

text \<open>
  Runs of the program on the desktop: the user types a number, or something that is no
  number; the cursor rests at \<open>x = 1500\<close> or, for the last, off every window.
\<close>

definition typed :: "size_t option \<Rightarrow> HHOOK \<Rightarrow> pump list \<Rightarrow> console" where
  "typed c hk ps = \<lparr>wcin_choice = c, GetCursorPos = \<lparr>x = 1500, y = 10\<rparr>,
     SetWindowsHookExW = hk, pumps = ps\<rparr>"

definition hover_nowhere :: console where
  "hover_nowhere = \<lparr>wcin_choice = Some 0, GetCursorPos = \<lparr>x = 5000, y = 10\<rparr>,
     SetWindowsHookExW = 7, pumps = [RunningFalse]\<rparr>"

section \<open>Properties of the event filter\<close>

lemmas desktop_simps = desktop_def desktop2_def desktop_pid_def desktop_at_def armed_def
  armed2_def wheel_at_def PidFromPoint_def fgPid_def HC_ACTION_def WM_MOUSEWHEEL_def
  WM_MOUSEHWHEEL_def

text \<open>
  C1. A wheel event (vertical or horizontal) that the hook is called to process
  (\<open>nCode = HC_ACTION\<close>) while a target is set (\<open>g_targetPid \<noteq> 0\<close>) is swallowed (the
  hook returns 1) if and only if the process of the foreground window is the target and
  the process \<open>PidFromPoint\<close> finds under the event's point is not the target; in
  every other case it is forwarded, with its arguments unchanged, to
  \<open>CallNextHookEx\<close>. When no window lies at the point, \<open>PidFromPoint\<close> gives a value
  that is not the target.
\<close>

theorem wheel_swallowed_iff:
  assumes "nCode = HC_ACTION" and "g_targetPid g \<noteq> 0"
    and "wParam = WM_MOUSEWHEEL \<or> wParam = WM_MOUSEHWHEEL"
  shows "(LowLevelMouseProc g env nCode wParam lParam = Return1
            \<longleftrightarrow> fgPid env = g_targetPid g \<and> PidFromPoint env (pt lParam) \<noteq> g_targetPid g)
       \<and> (LowLevelMouseProc g env nCode wParam lParam
              = CallNextHookEx (g_mouseHook g) nCode wParam lParam
            \<longleftrightarrow> fgPid env \<noteq> g_targetPid g \<or> PidFromPoint env (pt lParam) = g_targetPid g)
       \<and> (WindowFromPoint env (pt lParam) = 0
            \<longrightarrow> PidFromPoint env (pt lParam) \<noteq> g_targetPid g)"
  using assms by (auto simp: LowLevelMouseProc_def PidFromPoint_def Let_def)

theorem wheel_swallowed_iff_witness:
  "g_targetPid armed \<noteq> 0
   \<and> LowLevelMouseProc armed desktop HC_ACTION WM_MOUSEWHEEL (wheel_at 1500) = Return1
   \<and> LowLevelMouseProc armed desktop HC_ACTION WM_MOUSEHWHEEL (wheel_at 2500)
       = CallNextHookEx 7 HC_ACTION WM_MOUSEHWHEEL (wheel_at 2500)
   \<and> LowLevelMouseProc armed desktop2 HC_ACTION WM_MOUSEWHEEL (wheel_at 5000) = Return1"
  using wheel_swallowed_iff [of HC_ACTION armed WM_MOUSEWHEEL desktop "wheel_at 1500"]
    wheel_swallowed_iff [of HC_ACTION armed WM_MOUSEHWHEEL desktop "wheel_at 2500"]
    wheel_swallowed_iff [of HC_ACTION armed WM_MOUSEWHEEL desktop2 "wheel_at 5000"]
  by (simp add: desktop_simps)

text \<open>
  C2, as the specification states it, fails: process 300 is the target and owns the
  foreground window, no window lies at \<open>x = 5000\<close>, and the wheel event there is not
  forwarded.
\<close>

theorem no_window_not_forwarded:
  "g_targetPid armed = 300 \<and> fgPid desktop = 300
   \<and> WindowFromPoint desktop (pt (wheel_at 5000)) = 0
   \<and> verdict_of (LowLevelMouseProc armed desktop HC_ACTION WM_MOUSEWHEEL (wheel_at 5000))
        \<noteq> Forward"
  by (simp add: LowLevelMouseProc_def Let_def desktop_simps)

text \<open>
  C2, amended. For a wheel event the hook is called to process while a target is set and
  the foreground window belongs to the target: if no window lies at the event's point,
  \<open>PidFromPoint\<close> returns 0, which is not the target, and the event is swallowed.
\<close>

theorem no_window_swallowed:
  assumes "nCode = HC_ACTION" and "g_targetPid g \<noteq> 0"
    and "wParam = WM_MOUSEWHEEL \<or> wParam = WM_MOUSEHWHEEL"
    and "fgPid env = g_targetPid g"
    and "WindowFromPoint env (pt lParam) = 0"
  shows "PidFromPoint env (pt lParam) = 0
       \<and> LowLevelMouseProc g env nCode wParam lParam = Return1"
  using assms by (simp add: LowLevelMouseProc_def PidFromPoint_def Let_def)

theorem no_window_swallowed_witness:
  "fgPid desktop = g_targetPid armed
   \<and> WindowFromPoint desktop (pt (wheel_at (- 1))) = 0
   \<and> PidFromPoint desktop (pt (wheel_at (- 1))) = 0
   \<and> LowLevelMouseProc armed desktop HC_ACTION WM_MOUSEHWHEEL (wheel_at (- 1)) = Return1"
  using no_window_swallowed [of HC_ACTION armed WM_MOUSEHWHEEL desktop "wheel_at (- 1)"]
  by (simp add: desktop_simps)

text \<open>
  C3. An event that is neither \<open>WM_MOUSEWHEEL\<close> nor \<open>WM_MOUSEHWHEEL\<close> is forwarded
  with its arguments unchanged, whatever the target, the foreground window and the
  cursor position are.
\<close>

theorem non_wheel_forwarded:
  assumes "wParam \<noteq> WM_MOUSEWHEEL" and "wParam \<noteq> WM_MOUSEHWHEEL"
  shows "LowLevelMouseProc g env nCode wParam lParam
           = CallNextHookEx (g_mouseHook g) nCode wParam lParam"
  using assms by (simp add: LowLevelMouseProc_def Let_def)

text \<open>The witness: \<open>WM_MOUSEMOVE\<close> (0x0200) over the chat window while the game has focus.\<close>

theorem non_wheel_forwarded_witness:
  "(0x0200 :: WPARAM) \<noteq> WM_MOUSEWHEEL \<and> (0x0200 :: WPARAM) \<noteq> WM_MOUSEHWHEEL
   \<and> LowLevelMouseProc armed desktop HC_ACTION 0x0200 (wheel_at 1500)
       = CallNextHookEx 7 HC_ACTION 0x0200 (wheel_at 1500)"
  using non_wheel_forwarded [of "0x0200" armed desktop HC_ACTION "wheel_at 1500"]
  by (simp add: WM_MOUSEWHEEL_def WM_MOUSEHWHEEL_def armed_def)

text \<open>
  C4. While no target is set (\<open>g_targetPid = 0\<close>), every event, and so every wheel
  event, is forwarded, whatever the foreground window and the cursor position are.
\<close>

theorem no_target_forwarded:
  assumes "g_targetPid g = 0"
  shows "LowLevelMouseProc g env nCode wParam lParam
           = CallNextHookEx (g_mouseHook g) nCode wParam lParam"
  using assms by (simp add: LowLevelMouseProc_def Let_def)

theorem no_target_forwarded_witness:
  "LowLevelMouseProc (armed\<lparr>g_targetPid := 0\<rparr>) desktop HC_ACTION WM_MOUSEWHEEL (wheel_at 1500)
     = CallNextHookEx 7 HC_ACTION WM_MOUSEWHEEL (wheel_at 1500)"
  using no_target_forwarded
    [of "armed\<lparr>g_targetPid := 0\<rparr>" desktop HC_ACTION WM_MOUSEWHEEL "wheel_at 1500"]
  by (simp add: armed_def)

text \<open>
  C8. When the hook code is not \<open>HC_ACTION\<close>, the event goes to \<open>CallNextHookEx\<close>,
  also when it is a wheel event, the target is set and owns the foreground window, and
  the cursor is over a window of another process.
\<close>

theorem not_action_forwarded:
  assumes "nCode \<noteq> HC_ACTION"
  shows "LowLevelMouseProc g env nCode wParam lParam
           = CallNextHookEx (g_mouseHook g) nCode wParam lParam"
  using assms by (simp add: LowLevelMouseProc_def Let_def)

theorem not_action_forwarded_witness:
  "- 1 \<noteq> HC_ACTION \<and> g_targetPid armed \<noteq> 0 \<and> fgPid desktop = g_targetPid armed
   \<and> PidFromPoint desktop (pt (wheel_at 1500)) \<noteq> g_targetPid armed
   \<and> LowLevelMouseProc armed desktop (- 1) WM_MOUSEWHEEL (wheel_at 1500)
       = CallNextHookEx 7 (- 1) WM_MOUSEWHEEL (wheel_at 1500)"
  using not_action_forwarded [of "- 1" armed desktop WM_MOUSEWHEEL "wheel_at 1500"]
  by (simp add: desktop_simps)

text \<open>
  C9. The verdict is a function of the hook code, the event kind, the process of the
  foreground window, the process under the event's point and the target: two calls of
  the hook that agree on these five, whatever else differs between them (the hook handle,
  the other fields of the event, the rest of the system), give the same verdict.
\<close>

theorem verdict_determined:
  assumes "nCode = nCode'" and "wParam = wParam'"
    and "fgPid env = fgPid env'"
    and "PidFromPoint env (pt lParam) = PidFromPoint env' (pt lParam')"
    and "g_targetPid g = g_targetPid g'"
  shows "verdict_of (LowLevelMouseProc g env nCode wParam lParam)
           = verdict_of (LowLevelMouseProc g' env' nCode' wParam' lParam')"
  using assms by (simp add: LowLevelMouseProc_def Let_def)

theorem verdict_determined_witness:
  "fgPid desktop = fgPid desktop2
   \<and> PidFromPoint desktop (pt (wheel_at 1500)) = PidFromPoint desktop2 (pt (wheel_at 1700))
   \<and> g_targetPid armed = g_targetPid armed2
   \<and> verdict_of (LowLevelMouseProc armed desktop HC_ACTION WM_MOUSEWHEEL (wheel_at 1500))
       = verdict_of (LowLevelMouseProc armed2 desktop2 HC_ACTION WM_MOUSEWHEEL (wheel_at 1700))"
  using verdict_determined [of HC_ACTION HC_ACTION WM_MOUSEWHEEL WM_MOUSEWHEEL desktop desktop2
      "wheel_at 1500" "wheel_at 1700" armed armed2]
  by (simp add: desktop_simps)

section \<open>Properties of the candidate enumerator\<close>

subsection \<open>Insertion sort meets the contract of \<open>std::sort\<close>\<close>

lemma mset_insert_by: "mset (insert_by lt a bs) = add_mset a (mset bs)"
  by (induction bs) auto

lemma set_insert_by: "set (insert_by lt a bs) = insert a (set bs)"
  by (induction bs) auto

lemma sorted_insert_by:
  assumes irr: "\<And>a. \<not> lt a a" and tr: "\<And>a b c. lt a b \<Longrightarrow> lt b c \<Longrightarrow> lt a c"
  shows "sorted_wrt (\<lambda>a b. \<not> lt b a) bs \<Longrightarrow> sorted_wrt (\<lambda>a b. \<not> lt b a) (insert_by lt a bs)"
proof (induction bs)
  case Nil
  then show ?case by simp
next
  case (Cons b bs)
  show ?case
  proof (cases "lt a b")
    case True
    have "\<not> lt b a" using True irr tr by blast
    moreover have "\<not> lt c a" if "c \<in> set bs" for c
    proof
      assume "lt c a"
      then have "lt c b" using True tr by blast
      then show False using Cons.prems that by simp
    qed
    ultimately show ?thesis using True Cons.prems by simp
  next
    case False
    then show ?thesis using Cons by (auto simp: set_insert_by)
  qed
qed

lemma insertion_sort_meets_spec: "std_sort_spec insertion_sort"
proof -
  have "mset (insertion_sort lt xs) = mset xs" for lt :: "'a \<Rightarrow> 'a \<Rightarrow> bool" and xs
    by (induction xs) (simp_all add: insertion_sort_def mset_insert_by)
  moreover have "sorted_wrt (\<lambda>a b. \<not> lt b a) (insertion_sort lt xs)"
    if "strict_weak_order lt" for lt :: "'a \<Rightarrow> 'a \<Rightarrow> bool" and xs
  proof (induction xs)
    case Nil
    then show ?case by (simp add: insertion_sort_def)
  next
    case (Cons a xs)
    have irr: "\<And>a. \<not> lt a a" and tr: "\<And>a b c. lt a b \<Longrightarrow> lt b c \<Longrightarrow> lt a c"
      using that unfolding strict_weak_order_def by blast+
    show ?case
      using sorted_insert_by [of lt, OF irr tr Cons.IH [unfolded insertion_sort_def]]
      by (simp add: insertion_sort_def)
  qed
  ultimately show ?thesis unfolding std_sort_spec_def by blast
qed

subsection \<open>The comparison\<close>

lemma unat_towlower:
  "unat (towlower c) = (if 65 \<le> unat c \<and> unat c \<le> 90 then unat c + 32 else unat c)"
  by (auto simp: towlower_def word_le_nat_alt unat_word_ariths)

lemma towlower_eq_0: "towlower c = 0 \<longleftrightarrow> c = 0"
proof -
  have "unat (towlower c) = 0 \<longleftrightarrow> unat c = 0"
    by (simp add: unat_towlower)
  then show ?thesis by (simp add: unat_eq_0)
qed

lemma lower_Nil: "lower [] = []"
  by (simp add: lower_def)

lemma lower_Cons: "lower (c # a) = (if c = 0 then [] else towlower c # lower a)"
  by (simp add: lower_def)

lemma towlower_0: "towlower 0 = 0"
  by (simp add: towlower_def)

lemma uint_eq_iff: "uint f = uint l \<longleftrightarrow> f = l" for f l :: wchar_t
  by (simp add: word_uint_eq_iff)

lemma uint_pos_iff: "0 < uint f \<longleftrightarrow> f \<noteq> 0" for f :: wchar_t
proof -
  have "0 < uint f \<longleftrightarrow> 0 < f" by (simp add: word_less_def)
  then show ?thesis by (simp add: word_neq_0_conv)
qed

lemma word_pos_iff: "0 < f \<longleftrightarrow> f \<noteq> 0" for f :: wchar_t
  by (simp add: word_neq_0_conv)

lemma wcsicmp_step_same:
  "towlower c \<noteq> 0 \<Longrightarrow> towlower c = towlower d \<Longrightarrow> wcsicmp (c # a) (d # b) = wcsicmp a b"
  by (simp add: Let_def)

lemma wcsicmp_step_differ:
  "\<not> (towlower c \<noteq> 0 \<and> towlower c = towlower d)
     \<Longrightarrow> wcsicmp (c # a) (d # b) = uint (towlower c) - uint (towlower d)"
  by (auto simp: Let_def)

lemma wcsicmp_eq_0: "wcsicmp a b = 0 \<longleftrightarrow> lower a = lower b"
proof (induction a b rule: wcsicmp.induct)
  case 1
  then show ?case by (simp add: lower_Nil)
next
  case (2 d b)
  then show ?case by (simp add: lower_Nil lower_Cons towlower_eq_0 uint_0_iff)
next
  case (3 c a)
  then show ?case by (simp add: lower_Nil lower_Cons towlower_eq_0 uint_0_iff)
next
  case (4 c a d b)
  show ?case
  proof (cases "towlower c \<noteq> 0 \<and> towlower c = towlower d")
    case True
    then have t: "towlower c \<noteq> 0" "towlower c = towlower d" "towlower d \<noteq> 0" by auto
    have "c \<noteq> 0" using t(1) towlower_eq_0 [of c] by blast
    moreover have "d \<noteq> 0" using t(3) towlower_eq_0 [of d] by blast
    ultimately have "c \<noteq> 0" and "d \<noteq> 0" .
    then have "lower (c # a) = towlower c # lower a" and "lower (d # b) = towlower c # lower b"
      using t(2) by (simp_all add: lower_Cons)
    then show ?thesis
      using "4.IH" [OF refl refl True] wcsicmp_step_same [OF t(1,2), of a b] by simp
  next
    case False
    then have "wcsicmp (c # a) (d # b) = uint (towlower c) - uint (towlower d)"
      by (rule wcsicmp_step_differ)
    then have "wcsicmp (c # a) (d # b) = 0 \<longleftrightarrow> towlower c = towlower d"
      by (simp add: uint_eq_iff)
    with False show ?thesis
      by (auto simp: lower_Cons towlower_eq_0 towlower_0)
  qed
qed

lemma wcsicmp_less_0: "wcsicmp a b < 0 \<longleftrightarrow> lower a < lower b"
proof (induction a b rule: wcsicmp.induct)
  case 1
  then show ?case by (simp add: lower_Nil)
next
  case (2 d b)
  then show ?case by (simp add: lower_Nil lower_Cons uint_pos_iff towlower_eq_0)
next
  case (3 c a)
  then show ?case by (simp add: lower_Nil lower_Cons)
next
  case (4 c a d b)
  show ?case
  proof (cases "towlower c \<noteq> 0 \<and> towlower c = towlower d")
    case True
    then have t: "towlower c \<noteq> 0" "towlower c = towlower d" "towlower d \<noteq> 0" by auto
    have "c \<noteq> 0" using t(1) towlower_eq_0 [of c] by blast
    moreover have "d \<noteq> 0" using t(3) towlower_eq_0 [of d] by blast
    ultimately have "c \<noteq> 0" and "d \<noteq> 0" .
    then have "lower (c # a) = towlower c # lower a" and "lower (d # b) = towlower c # lower b"
      using t(2) by (simp_all add: lower_Cons)
    then show ?thesis
      using "4.IH" [OF refl refl True] wcsicmp_step_same [OF t(1,2), of a b] by simp
  next
    case False
    then have "wcsicmp (c # a) (d # b) = uint (towlower c) - uint (towlower d)"
      by (rule wcsicmp_step_differ)
    then have *: "wcsicmp (c # a) (d # b) < 0 \<longleftrightarrow> towlower c < towlower d"
      by (simp add: word_less_def)
    show ?thesis
    proof (cases "c = 0")
      case True
      then show ?thesis
        unfolding * by (simp add: lower_Cons towlower_0 word_pos_iff towlower_eq_0)
    next
      case c: False
      show ?thesis
      proof (cases "d = 0")
        case True
        then show ?thesis unfolding * by (simp add: lower_Cons towlower_0 c)
      next
        case d: False
        from False c have "towlower c \<noteq> towlower d" by (simp add: towlower_eq_0)
        then show ?thesis unfolding * by (simp add: lower_Cons c d)
      qed
    qed
  qed
qed

lemma app_less_iff:
  "app_less a b \<longleftrightarrow>
     lower (processName a) < lower (processName b)
     \<or> lower (processName a) = lower (processName b)
       \<and> lower (windowTitle a) < lower (windowTitle b)"
  by (auto simp: app_less_def Let_def wcsicmp_eq_0 wcsicmp_less_0)

lemma strict_weak_order_app_less: "strict_weak_order app_less"
proof -
  have irr: "\<not> app_less a a" for a
    by (simp add: app_less_iff)
  have tr: "app_less a c" if "app_less a b" and "app_less b c" for a b c
    using that unfolding app_less_iff by auto
  have eq: "lower (processName a) = lower (processName b)
            \<and> lower (windowTitle a) = lower (windowTitle b)"
    if "\<not> app_less a b" and "\<not> app_less b a" for a b
    using that unfolding app_less_iff by auto
  have inc: "\<not> app_less a c \<and> \<not> app_less c a"
    if "\<not> app_less a b" "\<not> app_less b a" "\<not> app_less b c" "\<not> app_less c b" for a b c
    using eq [OF that(1,2)] eq [OF that(3,4)] by (simp add: app_less_iff)
  show ?thesis
    unfolding strict_weak_order_def using irr tr inc by blast
qed

subsection \<open>One call of the callback\<close>

lemma find_pid_None: "List.find (\<lambda>e. pid e = p) out = None \<longleftrightarrow> p \<notin> pid ` set out"
  unfolding find_None_iff by blast

lemma EnumWindowsProc_skip:
  assumes "\<not> IsWindowVisible env h \<or> GetWindowThreadProcessId env h = 0
           \<or> GetWindowThreadProcessId env h \<in> pid ` set out"
  shows "EnumWindowsProc env h out = out"
  using assms by (auto simp: EnumWindowsProc_def Let_def find_pid_None)

lemma EnumWindowsProc_add:
  assumes "IsWindowVisible env h" and "GetWindowThreadProcessId env h \<noteq> 0"
    and "GetWindowThreadProcessId env h \<notin> pid ` set out"
  shows "EnumWindowsProc env h out = out @ EnumWindowsProc env h []"
  using assms by (simp add: EnumWindowsProc_def Let_def find_pid_None)

lemma EnumWindowsProc_single:
  assumes "IsWindowVisible env h" and "GetWindowThreadProcessId env h \<noteq> 0"
  shows "\<exists>e. EnumWindowsProc env h [] = [e] \<and> hwnd e = h
             \<and> pid e = GetWindowThreadProcessId env h
             \<and> processName e = GetProcessNameFromPid env (pid e)
             \<and> windowTitle e \<noteq> []"
  using assms
  by (auto simp: EnumWindowsProc_def Let_def L_def split: prod.splits)

subsection \<open>The whole enumeration\<close>

lemma find_snoc:
  "List.find P (ws @ [w]) =
     (case List.find P ws of Some v \<Rightarrow> Some v | None \<Rightarrow> if P w then Some w else None)"
  by (induction ws) auto

lemma EnumWindows_invariant:
  fixes env ws
  defines "apps \<equiv> foldl (\<lambda>out h. EnumWindowsProc env h out) [] ws"
  shows "distinct (map pid apps)
       \<and> pid ` set apps = {p. p \<noteq> 0 \<and> (\<exists>h \<in> set ws. IsWindowVisible env h
                                   \<and> GetWindowThreadProcessId env h = p)}
       \<and> (\<forall>e \<in> set apps.
             List.find (\<lambda>h. IsWindowVisible env h \<and> GetWindowThreadProcessId env h = pid e) ws
               = Some (hwnd e)
             \<and> EnumWindowsProc env (hwnd e) [] = [e])"
  unfolding apps_def
proof (induction ws rule: rev_induct)
  case Nil
  then show ?case by simp
next
  case (snoc h ws)
  define out where "out = foldl (\<lambda>out h. EnumWindowsProc env h out) [] ws"
  define own where "own = GetWindowThreadProcessId env h"
  have step: "foldl (\<lambda>out h. EnumWindowsProc env h out) [] (ws @ [h]) = EnumWindowsProc env h out"
    by (simp add: out_def)
  have d: "distinct (map pid out)"
    and s: "pid ` set out = {p. p \<noteq> 0 \<and> (\<exists>h \<in> set ws. IsWindowVisible env h
                                   \<and> GetWindowThreadProcessId env h = p)}"
    and f: "\<And>e. e \<in> set out \<Longrightarrow>
             List.find (\<lambda>h. IsWindowVisible env h \<and> GetWindowThreadProcessId env h = pid e) ws
               = Some (hwnd e)
             \<and> EnumWindowsProc env (hwnd e) [] = [e]"
    using snoc.IH unfolding out_def by blast+
  have old: "List.find (\<lambda>h. IsWindowVisible env h \<and> GetWindowThreadProcessId env h = pid e) (ws @ [h])
               = Some (hwnd e)" if "e \<in> set out" for e
    using f [OF that] by (simp add: find_snoc)
  show ?case
  proof (cases "IsWindowVisible env h \<and> own \<noteq> 0 \<and> own \<notin> pid ` set out")
    case False
    then have same: "EnumWindowsProc env h out = out"
      using EnumWindowsProc_skip [of env h out] unfolding own_def by blast
    have "pid ` set out = {p. p \<noteq> 0 \<and> (\<exists>h' \<in> set (ws @ [h]). IsWindowVisible env h'
                                   \<and> GetWindowThreadProcessId env h' = p)}"
      using False s unfolding own_def by auto
    then show ?thesis
      unfolding step same using d f old by blast
  next
    case True
    then obtain e where e: "EnumWindowsProc env h [] = [e]" "hwnd e = h" "pid e = own"
      using EnumWindowsProc_single [of env h] unfolding own_def by blast
    have new: "EnumWindowsProc env h out = out @ [e]"
      using True EnumWindowsProc_add [of env h out] e(1) unfolding own_def by simp
    have d': "distinct (map pid (out @ [e]))"
      using d True e(3) by auto
    have s': "pid ` set (out @ [e]) = {p. p \<noteq> 0 \<and> (\<exists>h' \<in> set (ws @ [h]). IsWindowVisible env h'
                                   \<and> GetWindowThreadProcessId env h' = p)}"
      using True s e(3) unfolding own_def by auto
    have none: "List.find (\<lambda>h'. IsWindowVisible env h' \<and> GetWindowThreadProcessId env h' = own) ws = None"
    proof (rule ccontr)
      assume "List.find (\<lambda>h'. IsWindowVisible env h' \<and> GetWindowThreadProcessId env h' = own) ws \<noteq> None"
      then obtain h' where "h' \<in> set ws" "IsWindowVisible env h'" "GetWindowThreadProcessId env h' = own"
        unfolding find_None_iff by blast
      then have "own \<in> pid ` set out" using True s by blast
      then show False using True by blast
    qed
    have f': "List.find (\<lambda>h'. IsWindowVisible env h' \<and> GetWindowThreadProcessId env h' = pid e') (ws @ [h])
               = Some (hwnd e') \<and> EnumWindowsProc env (hwnd e') [] = [e']"
      if "e' \<in> set (out @ [e])" for e'
    proof (cases "e' = e")
      case True
      with none e \<open>IsWindowVisible env h \<and> own \<noteq> 0 \<and> own \<notin> pid ` set out\<close> show ?thesis
        by (simp add: find_snoc own_def)
    next
      case False
      with that have "e' \<in> set out" by simp
      then show ?thesis using f old by blast
    qed
    show ?thesis
      unfolding step new using d' s' f' by blast
  qed
qed

lemma lex_not_less:
  fixes na nb :: "'a::linorder" and ta tb :: "'b::linorder"
  shows "\<not> (nb < na \<or> nb = na \<and> tb < ta) \<Longrightarrow> na < nb \<or> na = nb \<and> ta \<le> tb"
  by (auto simp: not_less)

lemma EnumerateApps_sorted_apps:
  assumes "std_sort_spec srt"
  shows "mset (EnumerateApps srt env)
           = mset (foldl (\<lambda>out h. EnumWindowsProc env h out) [] (EnumWindows env))"
    and "sorted_wrt (\<lambda>a b. \<not> app_less b a) (EnumerateApps srt env)"
  using assms strict_weak_order_app_less
  unfolding std_sort_spec_def EnumerateApps_def Let_def by blast+

lemma EnumerateApps_entries:
  assumes "std_sort_spec srt" and "e \<in> set (EnumerateApps srt env)"
  shows "List.find (\<lambda>h. IsWindowVisible env h \<and> GetWindowThreadProcessId env h = pid e)
           (EnumWindows env) = Some (hwnd e)"
    and "EnumWindowsProc env (hwnd e) [] = [e]"
    and "IsWindowVisible env (hwnd e)"
    and "GetWindowThreadProcessId env (hwnd e) = pid e"
    and "pid e \<noteq> 0"
proof -
  let ?apps = "foldl (\<lambda>out h. EnumWindowsProc env h out) [] (EnumWindows env)"
  have "set (EnumerateApps srt env) = set ?apps"
    using EnumerateApps_sorted_apps(1) [OF assms(1), of env] by (rule mset_eq_setD)
  then have e: "e \<in> set ?apps" using assms(2) by simp
  show f: "List.find (\<lambda>h. IsWindowVisible env h \<and> GetWindowThreadProcessId env h = pid e)
           (EnumWindows env) = Some (hwnd e)"
    and "EnumWindowsProc env (hwnd e) [] = [e]"
    using EnumWindows_invariant [of env "EnumWindows env"] e by blast+
  show "IsWindowVisible env (hwnd e)" and "GetWindowThreadProcessId env (hwnd e) = pid e"
    using f unfolding find_Some_iff by auto
  have "pid e \<in> pid ` set ?apps" using e by blast
  then show "pid e \<noteq> 0"
    using EnumWindows_invariant [of env "EnumWindows env"] by blast
qed

text \<open>
  C5. For every snapshot of the top-level windows, and every sort that meets the
  contract of \<open>std::sort\<close>, \<open>EnumerateApps\<close> returns exactly one entry for every
  process identifier (other than 0, which stands for no process) that owns a visible
  window, and no other entry; the entry of a process is the one \<open>EnumWindowsProc\<close>
  builds for the first visible window of that process in enumeration order; and the
  result is sorted by process name and then by window title, both compared without
  regard to case (by their lower-case forms).
\<close>

theorem EnumerateApps_one_per_process_sorted:
  assumes "std_sort_spec srt"
  shows "distinct (map pid (EnumerateApps srt env))
       \<and> pid ` set (EnumerateApps srt env)
           = {p. p \<noteq> 0 \<and> (\<exists>h \<in> set (EnumWindows env).
                   IsWindowVisible env h \<and> GetWindowThreadProcessId env h = p)}
       \<and> (\<forall>e \<in> set (EnumerateApps srt env).
             List.find (\<lambda>h. IsWindowVisible env h \<and> GetWindowThreadProcessId env h = pid e)
               (EnumWindows env) = Some (hwnd e)
             \<and> EnumWindowsProc env (hwnd e) [] = [e])
       \<and> sorted_wrt
            (\<lambda>a b. lower (processName a) < lower (processName b)
                 \<or> lower (processName a) = lower (processName b)
                   \<and> lower (windowTitle a) \<le> lower (windowTitle b))
            (EnumerateApps srt env)"
proof -
  let ?apps = "foldl (\<lambda>out h. EnumWindowsProc env h out) [] (EnumWindows env)"
  note m = EnumerateApps_sorted_apps(1) [OF assms, of env]
  have "mset (map pid (EnumerateApps srt env)) = mset (map pid ?apps)"
    using m by simp
  then have "distinct (map pid (EnumerateApps srt env)) \<longleftrightarrow> distinct (map pid ?apps)"
    by (rule mset_eq_imp_distinct_iff)
  then have d: "distinct (map pid (EnumerateApps srt env))"
    using EnumWindows_invariant [of env "EnumWindows env"] by blast
  have "set (EnumerateApps srt env) = set ?apps"
    using m by (rule mset_eq_setD)
  then have s: "pid ` set (EnumerateApps srt env)
           = {p. p \<noteq> 0 \<and> (\<exists>h \<in> set (EnumWindows env).
                   IsWindowVisible env h \<and> GetWindowThreadProcessId env h = p)}"
    using EnumWindows_invariant [of env "EnumWindows env"] by simp
  have f: "\<forall>e \<in> set (EnumerateApps srt env).
             List.find (\<lambda>h. IsWindowVisible env h \<and> GetWindowThreadProcessId env h = pid e)
               (EnumWindows env) = Some (hwnd e)
             \<and> EnumWindowsProc env (hwnd e) [] = [e]"
    using EnumerateApps_entries(1,2) [OF assms] by blast
  have o: "sorted_wrt
            (\<lambda>a b. lower (processName a) < lower (processName b)
                 \<or> lower (processName a) = lower (processName b)
                   \<and> lower (windowTitle a) \<le> lower (windowTitle b))
            (EnumerateApps srt env)"
  proof (rule sorted_wrt_mono_rel [OF _ EnumerateApps_sorted_apps(2) [OF assms, of env]])
    fix a b
    assume "\<not> app_less b a"
    then show "lower (processName a) < lower (processName b)
        \<or> lower (processName a) = lower (processName b)
          \<and> lower (windowTitle a) \<le> lower (windowTitle b)"
      unfolding app_less_iff by (rule lex_not_less)
  qed
  from d s f o show ?thesis by (intro conjI)
qed

lemma EnumerateApps_desktop:
  "EnumerateApps insertion_sort desktop =
     [\<lparr>hwnd = 4, pid = 400, processName = L ''(unknown)'', windowTitle = L ''[No Title]''\<rparr>,
      \<lparr>hwnd = 2, pid = 200, processName = L ''Chat.exe'', windowTitle = [0x20, 0x20]\<rparr>,
      \<lparr>hwnd = 1, pid = 300, processName = L ''game.exe'', windowTitle = L ''Main''\<rparr>]"
  by code_simp

text \<open>
  On the desktop: process 300 has two visible windows and is listed once, with its first
  window; the hidden window 5 and the ownerless window 6 are not listed; \<open>(unknown)\<close>
  comes before \<open>Chat.exe\<close>, which comes before \<open>game.exe\<close>.
\<close>

theorem EnumerateApps_one_per_process_sorted_witness:
  "std_sort_spec (insertion_sort :: (AppEntry \<Rightarrow> AppEntry \<Rightarrow> bool) \<Rightarrow> _)
   \<and> map hwnd (EnumerateApps insertion_sort desktop) = [4, 2, 1]
   \<and> map pid (EnumerateApps insertion_sort desktop) = [400, 200, 300]
   \<and> distinct (map pid (EnumerateApps insertion_sort desktop))
   \<and> sorted_wrt
        (\<lambda>a b. lower (processName a) < lower (processName b)
             \<or> lower (processName a) = lower (processName b)
               \<and> lower (windowTitle a) \<le> lower (windowTitle b))
        (EnumerateApps insertion_sort desktop)"
  using EnumerateApps_one_per_process_sorted [OF insertion_sort_meets_spec, of desktop]
    insertion_sort_meets_spec [where ?'a = AppEntry]
  by (simp add: EnumerateApps_desktop)

text \<open>
  C10. Every entry \<open>EnumerateApps\<close> returns has a process identifier other than 0 and
  a title that is not empty, and a window whose process identifier resolves to 0 has no
  entry.
\<close>

theorem EnumerateApps_entries_nonzero_titled:
  assumes "std_sort_spec srt"
  shows "(\<forall>e \<in> set (EnumerateApps srt env). pid e \<noteq> 0 \<and> windowTitle e \<noteq> [])
       \<and> (\<forall>h. GetWindowThreadProcessId env h = 0 \<longrightarrow> h \<notin> hwnd ` set (EnumerateApps srt env))"
proof -
  have "pid e \<noteq> 0 \<and> windowTitle e \<noteq> [] \<and> GetWindowThreadProcessId env (hwnd e) \<noteq> 0"
    if "e \<in> set (EnumerateApps srt env)" for e
  proof -
    note f = EnumerateApps_entries [OF assms that]
    obtain e' where "EnumWindowsProc env (hwnd e) [] = [e']" and "windowTitle e' \<noteq> []"
      using EnumWindowsProc_single [of env "hwnd e"] f(3,4,5) by auto
    then have "windowTitle e \<noteq> []" using f(2) by simp
    then show ?thesis using f(4,5) by simp
  qed
  then show ?thesis by blast
qed

theorem EnumerateApps_entries_nonzero_titled_witness:
  "GetWindowThreadProcessId desktop 6 = 0
   \<and> 6 \<in> set (EnumWindows desktop) \<and> IsWindowVisible desktop 6
   \<and> 6 \<notin> hwnd ` set (EnumerateApps insertion_sort desktop)
   \<and> map windowTitle (EnumerateApps insertion_sort desktop)
       = [L ''[No Title]'', [0x20, 0x20], L ''Main'']"
proof -
  have "GetWindowThreadProcessId desktop 6 = 0"
    and "6 \<in> set (EnumWindows desktop)" and "IsWindowVisible desktop 6"
    by (simp_all add: desktop_def desktop_pid_def)
  then show ?thesis
    using EnumerateApps_entries_nonzero_titled [OF insertion_sort_meets_spec, of desktop]
    by (simp add: EnumerateApps_desktop)
qed

text \<open>
  C6, as the specification states it, fails: window 2 of the desktop is visible and its
  title is two spaces; its entry keeps the two spaces as its title.
\<close>

theorem whitespace_title_kept:
  "IsWindowVisible desktop 2
   \<and> GetWindowTextLengthW desktop 2 = 2
   \<and> GetWindowTextW desktop 2 [0, 0, 0] 3 = (2, [0x20, 0x20, 0])
   \<and> EnumerateApps insertion_sort desktop ! 1
       = \<lparr>hwnd = 2, pid = 200, processName = L ''Chat.exe'', windowTitle = [0x20, 0x20]\<rparr>
   \<and> windowTitle (EnumerateApps insertion_sort desktop ! 1) \<noteq> L ''[No Title]''"
proof -
  have "IsWindowVisible desktop 2" and "GetWindowTextLengthW desktop 2 = 2"
    and "GetWindowTextW desktop 2 [0, 0, 0] 3 = (2, [0x20, 0x20, 0])"
    by (simp_all add: desktop_def desktop_text_def L_def)
  then show ?thesis
    by (simp add: EnumerateApps_desktop L_def)
qed

text \<open>
  C6, amended. For every visible window that gets an entry: when its title is empty
  (\<open>GetWindowTextLengthW\<close> reports no character, or \<open>GetWindowTextW\<close> copies none),
  the title of the entry is the placeholder \<open>[No Title]\<close>; otherwise the title of the
  entry is the text copied, whatever its characters are.
\<close>

theorem empty_title_placeholder:
  assumes "std_sort_spec srt" and "e \<in> set (EnumerateApps srt env)"
  shows "let len = GetWindowTextLengthW env (hwnd e);
             buf = resize [] (nat (sint len) + 1);
             (written, buf') = GetWindowTextW env (hwnd e) buf (word_of_nat (length buf))
         in (if sint len \<le> 0 \<or> sint written \<le> 0 then windowTitle e = L ''[No Title]''
             else windowTitle e = resize buf' (nat (sint written)))"
proof -
  note f = EnumerateApps_entries [OF assms]
  have "windowTitle e = windowTitle (hd (EnumWindowsProc env (hwnd e) []))"
    using f(2) by simp
  also have "EnumWindowsProc env (hwnd e) [] =
    [\<lparr>hwnd = hwnd e, pid = pid e, processName = GetProcessNameFromPid env (pid e),
      windowTitle =
        (let len = GetWindowTextLengthW env (hwnd e) in
         if 0 < sint len then
           let buf = resize [] (nat (sint len) + 1);
               (written, buf') = GetWindowTextW env (hwnd e) buf (word_of_nat (length buf));
               written' = (if sint written < 0 then 0 else written);
               t = resize buf' (nat (sint written'))
           in if t = [] then L ''[No Title]'' else t
         else L ''[No Title]'')\<rparr>]"
    using f(3,4,5) by (simp add: EnumWindowsProc_def Let_def)
  finally show ?thesis
    by (auto simp: Let_def resize_def split: prod.splits)
qed

theorem empty_title_placeholder_witness:
  "EnumerateApps insertion_sort desktop ! 0 \<in> set (EnumerateApps insertion_sort desktop)
   \<and> hwnd (EnumerateApps insertion_sort desktop ! 0) = 4
   \<and> sint (GetWindowTextLengthW desktop 4) = 0
   \<and> windowTitle (EnumerateApps insertion_sort desktop ! 0) = L ''[No Title]''"
proof -
  have "sint (GetWindowTextLengthW desktop 4) = 0"
    by (simp add: desktop_def desktop_text_def)
  then show ?thesis
    using empty_title_placeholder [OF insertion_sort_meets_spec,
        of "EnumerateApps insertion_sort desktop ! 0" desktop]
    by (simp add: EnumerateApps_desktop)
qed

section \<open>Properties of the program\<close>

lemma message_loop_RunningFalse: "RunningFalse \<in> set ps \<Longrightarrow> message_loop ps"
  by (induction ps rule: message_loop.induct) auto

lemma word_one_le_iff: "1 \<le> c \<longleftrightarrow> c \<noteq> 0" for c :: size_t
  by (simp add: word_le_nat_alt Suc_le_eq unat_gt_0)

text \<open>
  C7. \<open>wmain\<close> returns 2 exactly when the selection fails (menu input that is no
  number, an index outside \<open>1..N\<close> other than 0, or hover-select resolving no process,
  which is the case when no window lies under the cursor); otherwise it returns 3 exactly
  when the hook cannot be installed; otherwise it returns 0 as soon as the message
  loop is left, which happens when the loop reads \<open>g_running\<close> as false after a console
  signal. It returns no other code.
\<close>

theorem wmain_exit_codes:
  "snd (wmain srt env io) =
     (if selection_fails (EnumerateApps srt env) env io then Some 2
      else if SetWindowsHookExW io = 0 then Some 3
      else if message_loop (pumps io) then Some 0
      else None)
   \<and> (WindowFromPoint env (GetCursorPos io) = 0 \<longrightarrow> HoverSelectPid env io = 0)
   \<and> (RunningFalse \<in> set (pumps io) \<longrightarrow> message_loop (pumps io))"
proof -
  have run: "snd (install_and_run g io) =
      (if SetWindowsHookExW io = 0 then Some 3
       else if message_loop (pumps io) then Some 0 else None)" for g
    by (simp add: install_and_run_def Let_def)
  have "snd (wmain srt env io) =
     (if selection_fails (EnumerateApps srt env) env io then Some 2
      else if SetWindowsHookExW io = 0 then Some 3
      else if message_loop (pumps io) then Some 0
      else None)"
    by (cases "wcin_choice io")
       (auto simp: wmain_def selection_fails_def Let_def run word_one_le_iff Suc_le_eq unat_gt_0)
  moreover have "WindowFromPoint env (GetCursorPos io) = 0 \<longrightarrow> HoverSelectPid env io = 0"
    by (simp add: HoverSelectPid_def PidFromPoint_def)
  ultimately show ?thesis
    using message_loop_RunningFalse by blast
qed

lemma length_EnumerateApps_desktop: "length (EnumerateApps insertion_sort desktop) = 3"
  by (simp add: EnumerateApps_desktop)

theorem wmain_exit_codes_witness:
  "snd (wmain insertion_sort desktop (typed None 7 [RunningFalse])) = Some 2
   \<and> snd (wmain insertion_sort desktop (typed (Some 4) 7 [RunningFalse])) = Some 2
   \<and> WindowFromPoint desktop (GetCursorPos hover_nowhere) = 0
   \<and> snd (wmain insertion_sort desktop hover_nowhere) = Some 2
   \<and> snd (wmain insertion_sort desktop (typed (Some 3) 0 [RunningFalse])) = Some 3
   \<and> snd (wmain insertion_sort desktop
          (typed (Some 3) 7 [GetMessageW 1, GetMessageW 1, RunningFalse])) = Some 0
   \<and> snd (wmain insertion_sort desktop (typed (Some 0) 7 [GetMessageW 1, GetMessageW 0]))
        = Some 0
   \<and> snd (wmain insertion_sort desktop (typed (Some 0) 7 [GetMessageW 1])) = None"
proof -
  have "WindowFromPoint desktop (GetCursorPos hover_nowhere) = 0"
    and "HoverSelectPid desktop (typed c hk ps) = 200" for c hk ps
    by (simp_all add: HoverSelectPid_def PidFromPoint_def desktop_def desktop_at_def
        desktop_pid_def hover_nowhere_def typed_def)
  then show ?thesis
    using wmain_exit_codes [of insertion_sort desktop "typed None 7 [RunningFalse]"]
      wmain_exit_codes [of insertion_sort desktop "typed (Some 4) 7 [RunningFalse]"]
      wmain_exit_codes [of insertion_sort desktop hover_nowhere]
      wmain_exit_codes [of insertion_sort desktop "typed (Some 3) 0 [RunningFalse]"]
      wmain_exit_codes [of insertion_sort desktop
        "typed (Some 3) 7 [GetMessageW 1, GetMessageW 1, RunningFalse]"]
      wmain_exit_codes [of insertion_sort desktop
        "typed (Some 0) 7 [GetMessageW 1, GetMessageW 0]"]
      wmain_exit_codes [of insertion_sort desktop "typed (Some 0) 7 [GetMessageW 1]"]
    by (simp add: selection_fails_def length_EnumerateApps_desktop EnumerateApps_desktop
        typed_def hover_nowhere_def)
qed

end
